theory Spec2Isabelle
  imports Complex_Main
begin

section \<open>Fixed-point register access of the PID module\<close>

text \<open>
  The development follows \<^verbatim>\<open>pyrpl/hardware_modules/pid.py\<close>. Python floats are
  idealised as real numbers (no rounding error of float arithmetic is modelled), Python
  integers are \<open>int\<close>. Exceptions are values of the type \<open>error\<close>.
\<close>

datatype error = RangeError | ZeroDivisionError

text \<open>
  Python 3 \<^verbatim>\<open>round(x)\<close> on a float: the nearest integer, a tie going to the even
  neighbour.
\<close>

definition py_round :: "real \<Rightarrow> int" where
  "py_round x =
     (let n = \<lfloor>x\<rfloor>; r = x - of_int n
      in if r < 1 / 2 then n
         else if 1 / 2 < r then n + 1
         else if even n then n else n + 1)"

subsection \<open>The register bus\<close>

text \<open>
  The bus collaborator (\<^verbatim>\<open>instance._read\<close>, \<^verbatim>\<open>instance._write\<close>) is a store from
  addresses to raw register integers; every access is appended to a log so that the
  hardware traffic of an operation can be stated.
\<close>

datatype io_event = BusRead int | BusWrite int int

record hw =
  regs :: "int \<Rightarrow> int"
  io_log :: "io_event list"

definition bus_read :: "int \<Rightarrow> hw \<Rightarrow> int \<times> hw" where
  "bus_read a s = (regs s a, s\<lparr>io_log := io_log s @ [BusRead a]\<rparr>)"

definition bus_write :: "int \<Rightarrow> int \<Rightarrow> hw \<Rightarrow> hw" where
  "bus_write a v s = s\<lparr>regs := (regs s)(a := v), io_log := io_log s @ [BusWrite a v]\<rparr>"

subsection \<open>Two's-complement conversion\<close>

text \<open>
  The helpers \<^verbatim>\<open>_from_pyint\<close> and \<^verbatim>\<open>_to_pyint\<close> of the parent hardware module are
  not part of \<^verbatim>\<open>pid.py\<close>; the specification says that a register holds a
  two's-complement integer of its declared width, and that an integer which does not
  fit fails with \<^verbatim>\<open>RangeError\<close> and is never wrapped.
\<close>

text \<open>
  Modelled from the spec: the range of a raw register value of \<open>bitlength\<close> bits,
  \<open>[- 2\<^bsup>bitlength - 1\<^esup>, 2\<^bsup>bitlength - 1\<^esup> - 1]\<close>; the check itself is part of the
  missing \<^verbatim>\<open>_from_pyint\<close>.
\<close>

definition fits :: "nat \<Rightarrow> int \<Rightarrow> bool" where
  "fits bitlength v \<longleftrightarrow> - (2 ^ (bitlength - 1)) \<le> v \<and> v \<le> 2 ^ (bitlength - 1) - 1"

text \<open>
  Modelled from the spec: \<^verbatim>\<open>_from_pyint(v, bitlength)\<close> is missing; it checks the
  signed range of \<open>bitlength\<close> bits, fails with \<^verbatim>\<open>RangeError\<close> outside of it, and
  yields the two's-complement bit pattern.
\<close>

definition from_pyint :: "int \<Rightarrow> nat \<Rightarrow> error + int" where
  "from_pyint v bitlength =
     (if fits bitlength v then Inr (v mod 2 ^ bitlength) else Inl RangeError)"

text \<open>
  Modelled from the spec: \<^verbatim>\<open>_to_pyint(v, bitlength)\<close> is missing; it reads the low
  \<open>bitlength\<close> bits of a register as a two's-complement signed integer.
\<close>

definition to_pyint :: "int \<Rightarrow> nat \<Rightarrow> int" where
  "to_pyint v bitlength =
     (let u = v mod 2 ^ bitlength
      in if 2 ^ (bitlength - 1) \<le> u then u - 2 ^ bitlength else u)"

subsection \<open>The integrator value attribute\<close>

text \<open>
  \<^verbatim>\<open>IValAttribute.get_value\<close> and \<^verbatim>\<open>IValAttribute.set_value\<close>: register
  \<^verbatim>\<open>0x100\<close>, 16 bits, scaled by \<open>2 ^ 13\<close>. A failing conversion raises before the
  write, so no write happens then.
\<close>

definition get_value :: "hw \<Rightarrow> real \<times> hw" where
  "get_value s =
     (let (raw, s') = bus_read 0x100 s
      in (real_of_int (to_pyint raw 16) / 2 ^ 13, s'))"

definition set_value :: "real \<Rightarrow> hw \<Rightarrow> error + hw" where
  "set_value v s =
     (case from_pyint (py_round (v * 2 ^ 13)) 16 of
        Inl e \<Rightarrow> Inl e
      | Inr raw \<Rightarrow> Inr (bus_write 0x100 raw s))"

subsection \<open>Register parameters\<close>

text \<open>
  A \<^verbatim>\<open>FloatRegister(address, bits=..., norm=..., invert=...)\<close> declaration of the
  class \<^verbatim>\<open>Pid\<close>. All registers of the module are signed (the default).
\<close>

record descriptor =
  address :: int
  bits :: nat
  norm :: real
  invert :: bool

text \<open>
  The class \<^verbatim>\<open>FloatRegister\<close> (its conversion between floats and raw integers and
  its get and set) is imported from \<^verbatim>\<open>pyrpl.attributes\<close> and not part of
  \<^verbatim>\<open>pid.py\<close>; the four operations below follow the specification of the fixed-point
  codec and of the register parameter. None of the registers declared in \<^verbatim>\<open>pid.py\<close>
  gives bounds \<open>min\<close>, \<open>max\<close>, so a set only fails in \<open>encode\<close>.
\<close>

text \<open>
  Modelled from the spec: the conversion of \<^verbatim>\<open>FloatRegister\<close> from a float is
  missing; \<open>encode\<close> rounds \<open>value * normalization_factor\<close>, negates the raw integer
  if \<open>invert\<close> is set, and fails with \<^verbatim>\<open>RangeError\<close> if it does not fit the
  two's-complement range of the bit width.
\<close>

definition encode :: "descriptor \<Rightarrow> real \<Rightarrow> error + int" where
  "encode d v =
     (let r = py_round (v * norm d);
          raw = (if invert d then - r else r)
      in if fits (bits d) raw then Inr raw else Inl RangeError)"

text \<open>
  Modelled from the spec: the conversion of \<^verbatim>\<open>FloatRegister\<close> to a float is missing;
  \<open>decode\<close> divides the raw integer, negated if \<open>invert\<close> is set, by the
  normalization factor.
\<close>

definition decode :: "descriptor \<Rightarrow> int \<Rightarrow> real" where
  "decode d raw = real_of_int (if invert d then - raw else raw) / norm d"

text \<open>
  Modelled from the spec: the get of \<^verbatim>\<open>FloatRegister\<close> is missing; it is one bus read
  at the address of the register, followed by \<open>decode\<close>.
\<close>

definition reg_get :: "descriptor \<Rightarrow> hw \<Rightarrow> real \<times> hw" where
  "reg_get d s =
     (let (raw, s') = bus_read (address d) s
      in (decode d (to_pyint raw (bits d)), s'))"

text \<open>
  Modelled from the spec: the set of \<^verbatim>\<open>FloatRegister\<close> is missing; it is \<open>encode\<close>
  followed by one bus write of the bit pattern at the address of the register, and no
  write when \<open>encode\<close> fails.
\<close>

definition reg_set :: "descriptor \<Rightarrow> real \<Rightarrow> hw \<Rightarrow> error + hw" where
  "reg_set d v s =
     (case encode d v of
        Inl e \<Rightarrow> Inl e
      | Inr raw \<Rightarrow> Inr (bus_write (address d) (raw mod 2 ^ bits d) s))"

text \<open>The constants and register declarations of the class \<^verbatim>\<open>Pid\<close>.\<close>

definition PSR :: nat where "PSR = 12"
definition ISR :: nat where "ISR = 32"
definition DSR :: nat where "DSR = 10"
definition GAINBITS :: nat where "GAINBITS = 24"

definition setpoint :: descriptor where
  "setpoint = \<lparr>address = 0x104, bits = 14, norm = 2 ^ 13, invert = False\<rparr>"

definition min_voltage :: descriptor where
  "min_voltage = \<lparr>address = 0x124, bits = 14, norm = 2 ^ 13, invert = False\<rparr>"

definition max_voltage :: descriptor where
  "max_voltage = \<lparr>address = 0x128, bits = 14, norm = 2 ^ 13, invert = False\<rparr>"

definition p_reg :: descriptor where
  "p_reg = \<lparr>address = 0x108, bits = GAINBITS, norm = 2 ^ PSR, invert = False\<rparr>"

definition i_reg :: descriptor where
  "i_reg = \<lparr>address = 0x10C, bits = GAINBITS,
            norm = 2 ^ ISR * 2 * pi * (8 / 10 ^ 9), invert = False\<rparr>"

definition d_reg :: descriptor where
  "d_reg = \<lparr>address = 0x110, bits = GAINBITS,
            norm = 2 ^ DSR / (2 * pi * (8 / 10 ^ 9)), invert = True\<rparr>"

definition normalization_i :: descriptor where
  "normalization_i = \<lparr>address = 0x10C, bits = GAINBITS,
            norm = 2 ^ ISR * 2 * pi * (8 / 10 ^ 9) / 2 ^ 13 / (15625 / 10000),
            invert = False\<rparr>"

definition normalization_inputoffset :: descriptor where
  "normalization_inputoffset = \<lparr>address = 0x110, bits = 14 + DSR,
            norm = 2 ^ (13 + DSR), invert = False\<rparr>"

section \<open>Complex arrays with non-finite samples\<close>

text \<open>
  \<^verbatim>\<open>transfer_function\<close> computes on numpy arrays of complex doubles, where a
  division by zero raises nothing and yields infinities and not-a-number components
  instead. A float is therefore a finite real, an infinity or NaN; finite arithmetic is
  exact (rounding, overflow and the sign of zero are not modelled), and the special
  values follow IEEE 754. In a quotient of finite numbers a zero divisor counts as
  \<open>+0\<close>, which is the only zero divisor that the complex division below produces.
\<close>

datatype fl = Fin real | PInf | NInf | NaN

definition signed_inf :: "real \<Rightarrow> fl" where
  "signed_inf a = (if 0 < a then PInf else if a < 0 then NInf else NaN)"

fun fl_neg :: "fl \<Rightarrow> fl" where
  "fl_neg (Fin a) = Fin (- a)"
| "fl_neg PInf = NInf"
| "fl_neg NInf = PInf"
| "fl_neg NaN = NaN"

fun fl_add :: "fl \<Rightarrow> fl \<Rightarrow> fl" where
  "fl_add (Fin a) (Fin b) = Fin (a + b)"
| "fl_add NaN y = NaN"
| "fl_add x NaN = NaN"
| "fl_add PInf NInf = NaN"
| "fl_add NInf PInf = NaN"
| "fl_add PInf y = PInf"
| "fl_add x PInf = PInf"
| "fl_add NInf y = NInf"
| "fl_add x NInf = NInf"

definition fl_sub :: "fl \<Rightarrow> fl \<Rightarrow> fl" where
  "fl_sub x y = fl_add x (fl_neg y)"

fun fl_mul :: "fl \<Rightarrow> fl \<Rightarrow> fl" where
  "fl_mul (Fin a) (Fin b) = Fin (a * b)"
| "fl_mul NaN y = NaN"
| "fl_mul x NaN = NaN"
| "fl_mul PInf (Fin b) = signed_inf b"
| "fl_mul (Fin a) PInf = signed_inf a"
| "fl_mul NInf (Fin b) = signed_inf (- b)"
| "fl_mul (Fin a) NInf = signed_inf (- a)"
| "fl_mul PInf PInf = PInf"
| "fl_mul NInf NInf = PInf"
| "fl_mul PInf NInf = NInf"
| "fl_mul NInf PInf = NInf"

fun fl_div :: "fl \<Rightarrow> fl \<Rightarrow> fl" where
  "fl_div (Fin a) (Fin b) = (if b = 0 then signed_inf a else Fin (a / b))"
| "fl_div NaN y = NaN"
| "fl_div x NaN = NaN"
| "fl_div (Fin a) y = Fin 0"
| "fl_div PInf (Fin b) = (if 0 \<le> b then PInf else NInf)"
| "fl_div NInf (Fin b) = (if 0 \<le> b then NInf else PInf)"
| "fl_div x y = NaN"

fun fl_abs :: "fl \<Rightarrow> fl" where
  "fl_abs (Fin a) = Fin \<bar>a\<bar>"
| "fl_abs NaN = NaN"
| "fl_abs x = PInf"

text \<open>The comparison \<^verbatim>\<open>x >= y\<close>, false whenever an operand is NaN.\<close>

fun fl_ge :: "fl \<Rightarrow> fl \<Rightarrow> bool" where
  "fl_ge (Fin a) (Fin b) \<longleftrightarrow> b \<le> a"
| "fl_ge NaN y \<longleftrightarrow> False"
| "fl_ge x NaN \<longleftrightarrow> False"
| "fl_ge PInf y \<longleftrightarrow> True"
| "fl_ge x NInf \<longleftrightarrow> True"
| "fl_ge x y \<longleftrightarrow> False"

text \<open>
  A complex double is a pair of floats. Addition and multiplication are componentwise
  and by the textbook formula; division is numpy's complex division loop (Smith's
  method), which for a divisor \<open>0 + 0j\<close> divides both components of the dividend by
  \<open>\<bar>0\<bar>\<close>.
\<close>

type_synonym cfl = "fl \<times> fl"

definition c_fin :: "complex \<Rightarrow> cfl" where
  "c_fin z = (Fin (Re z), Fin (Im z))"

definition c_add :: "cfl \<Rightarrow> cfl \<Rightarrow> cfl" where
  "c_add x y = (fl_add (fst x) (fst y), fl_add (snd x) (snd y))"

definition c_mul :: "cfl \<Rightarrow> cfl \<Rightarrow> cfl" where
  "c_mul x y =
     (fl_sub (fl_mul (fst x) (fst y)) (fl_mul (snd x) (snd y)),
      fl_add (fl_mul (fst x) (snd y)) (fl_mul (snd x) (fst y)))"

definition c_div :: "cfl \<Rightarrow> cfl \<Rightarrow> cfl" where
  "c_div x y =
     (let in1r = fst x; in1i = snd x; in2r = fst y; in2i = snd y;
          in2r_abs = fl_abs in2r; in2i_abs = fl_abs in2i
      in if fl_ge in2r_abs in2i_abs then
           if in2r_abs = Fin 0 \<and> in2i_abs = Fin 0 then
             (fl_div in1r in2r_abs, fl_div in1i in2r_abs)
           else
             let rat = fl_div in2i in2r;
                 scl = fl_div (Fin 1) (fl_add in2r (fl_mul in2i rat))
             in (fl_mul (fl_add in1r (fl_mul in1i rat)) scl,
                 fl_mul (fl_sub in1i (fl_mul in1r rat)) scl)
         else
           let rat = fl_div in2r in2i;
               scl = fl_div (Fin 1) (fl_add in2i (fl_mul in2r rat))
           in (fl_mul (fl_add (fl_mul in1r rat) in1i) scl,
               fl_mul (fl_sub (fl_mul in1i rat) in1r) scl))"

section \<open>The transfer function\<close>

text \<open>
  \<^verbatim>\<open>Pid.transfer_function(self, frequencies, extradelay)\<close>. The attributes
  \<^verbatim>\<open>self.i\<close> and \<^verbatim>\<open>self.p\<close> are register reads. The frequency correction
  \<^verbatim>\<open>self._frequency_correction\<close> (a Python float \<open>c\<close>) and the filter coefficients
  \<^verbatim>\<open>self.inputfilter\<close> (a sequence of Python floats) belong to the parent class
  \<^verbatim>\<open>FilterModule\<close>, which is not part of \<^verbatim>\<open>pid.py\<close>; they are parameters here.
  The frequencies are given as finite real numbers and converted to complex ones
  (\<^verbatim>\<open>np.array(frequencies, dtype=np.complex)\<close>); an array is a list of samples.

  Products and exponentials of finite numbers are finite; they are computed in the
  complex numbers and embedded by \<open>c_fin\<close>. Every quotient whose divisor depends on a
  frequency goes through \<open>c_div\<close>. The clock period is the literal \<^verbatim>\<open>8e-9\<close>;
  \<open>delay_cycles\<close> is the class constant \<^verbatim>\<open>_delay\<close>.
\<close>

definition delay_cycles :: int where
  "delay_cycles = 3"

text \<open>
  The integrator term of one sample:
  \<^verbatim>\<open>self.i / (frequencies*1j) * np.exp(-1j*8e-9*self._frequency_correction*frequencies*2*np.pi)\<close>.
\<close>

definition integrator_term :: "real \<Rightarrow> real \<Rightarrow> complex \<Rightarrow> cfl" where
  "integrator_term i c w =
     c_mul (c_div (c_fin (of_real i)) (c_fin (w * \<i>)))
           (c_fin (exp (- \<i> * (8 / 10 ^ 9) * of_real c * w * 2 * of_real pi)))"

text \<open>
  One pass of the loop \<^verbatim>\<open>for f in self.inputfilter\<close> over the array:
  \<^verbatim>\<open>tf /= (1.0 + 1j*frequencies/f)\<close> for a low-pass and
  \<^verbatim>\<open>tf /= (1.0 + 1j*f/frequencies)\<close> for a high-pass.
\<close>

definition lowpass_sample :: "real \<Rightarrow> complex \<Rightarrow> cfl \<Rightarrow> cfl" where
  "lowpass_sample f w t =
     c_div t (c_add (c_fin 1) (c_div (c_fin (\<i> * w)) (c_fin (of_real f))))"

definition highpass_sample :: "real \<Rightarrow> complex \<Rightarrow> cfl \<Rightarrow> cfl" where
  "highpass_sample f w t =
     c_div t (c_add (c_fin 1) (c_div (c_fin (\<i> * of_real f)) (c_fin w)))"

fun filter_loop :: "real list \<Rightarrow> complex list \<Rightarrow> cfl list \<times> int \<Rightarrow> cfl list \<times> int" where
  "filter_loop [] frequencies (tf, module_delay) = (tf, module_delay)"
| "filter_loop (f # fs) frequencies (tf, module_delay) =
     (if f = 0 then filter_loop fs frequencies (tf, module_delay)
      else if 0 < f then
        filter_loop fs frequencies
          (map2 (lowpass_sample f) frequencies tf, module_delay + 2)
      else
        filter_loop fs frequencies
          (map2 (highpass_sample f) frequencies tf, module_delay + 1))"

text \<open>
  The whole method. The float division by \<open>c\<close> in the delay raises
  \<^verbatim>\<open>ZeroDivisionError\<close> for \<open>c = 0\<close>; nothing else in the body raises. The result
  comes with the state of the bus after the call.
\<close>

definition transfer_function ::
  "real \<Rightarrow> real list \<Rightarrow> hw \<Rightarrow> real list \<Rightarrow> real \<Rightarrow> (error + cfl list) \<times> hw" where
  "transfer_function c inputfilter s frequencies0 extradelay =
     (let module_delay = delay_cycles;
          frequencies = map of_real frequencies0;
          (i, s1) = reg_get i_reg s;
          tf = map (integrator_term i c) frequencies;
          (p, s2) = reg_get p_reg s1;
          tf = map (\<lambda>t. c_add t (c_fin (of_real p))) tf;
          (tf, module_delay) = filter_loop inputfilter frequencies (tf, module_delay)
      in if c = 0 then (Inl ZeroDivisionError, s2)
         else
           let delay = real_of_int module_delay * (8 / 10 ^ 9) / c + extradelay
           in (Inr (map2 (\<lambda>w t. c_mul t
                      (c_fin (exp (- \<i> * of_real delay * w * 2 * of_real pi))))
                    frequencies tf), s2))"

section \<open>Properties of the codec\<close>

lemma py_round_close: "\<bar>real_of_int (py_round x) - x\<bar> \<le> 1 / 2"
proof -
  have "real_of_int \<lfloor>x\<rfloor> \<le> x" and "x < real_of_int \<lfloor>x\<rfloor> + 1"
    by linarith+
  then show ?thesis
    by (auto simp: py_round_def Let_def)
qed

lemma to_pyint_mod:
  assumes "0 < b" and "fits b v"
  shows "to_pyint (v mod 2 ^ b) b = v"
proof -
  obtain k where b: "b = Suc k"
    using assms(1) by (cases b) auto
  have lo: "- (2 ^ k) \<le> v" and hi: "v < 2 ^ k"
    using assms(2) by (auto simp: fits_def b)
  show ?thesis
  proof (cases "0 \<le> v")
    case True
    then have "v mod 2 ^ b = v"
      using hi by (simp add: b)
    then show ?thesis
      using hi by (simp add: to_pyint_def b)
  next
    case False
    have "v mod 2 ^ b = (v + 2 ^ b) mod 2 ^ b"
      by simp
    also have "\<dots> = v + 2 ^ b"
      using False lo by (intro mod_pos_pos_trivial) (simp_all add: b)
    finally have "v mod 2 ^ b = v + 2 ^ b" .
    then show ?thesis
      using False lo by (simp add: to_pyint_def b)
  qed
qed

lemma decode_encode_close:
  assumes "0 < norm d" and "encode d v = Inr raw"
  shows "\<bar>decode d raw - v\<bar> \<le> 1 / norm d"
proof -
  let ?r = "py_round (v * norm d)"
  have raw: "raw = (if invert d then - ?r else ?r)"
    using assms(2) by (auto simp: encode_def Let_def split: if_splits)
  then have dec: "decode d raw = real_of_int ?r / norm d"
    by (simp add: decode_def)
  have close: "\<bar>real_of_int ?r - v * norm d\<bar> \<le> 1 / 2"
    by (rule py_round_close)
  have "\<bar>decode d raw - v\<bar> = \<bar>real_of_int ?r / norm d - v\<bar>"
    by (simp only: dec)
  also have "\<dots> = \<bar>real_of_int ?r - v * norm d\<bar> / norm d"
    using assms(1) by (simp add: abs_div_pos diff_divide_distrib)
  also have "\<dots> \<le> (1 / 2) / norm d"
    using assms(1) close by (intro divide_right_mono) simp_all
  also have "\<dots> \<le> 1 / norm d"
    using assms(1) by (intro divide_right_mono) simp_all
  finally show ?thesis .
qed

lemma set_get_value_close:
  assumes "set_value w s = Inr s'"
  shows "\<bar>fst (get_value s') - w\<bar> \<le> 1 / 2 ^ 13"
proof -
  let ?r = "py_round (w * 2 ^ 13)"
  have f: "fits 16 ?r" and s': "s' = bus_write 0x100 (?r mod 2 ^ 16) s"
    using assms by (auto simp: set_value_def from_pyint_def split: if_splits)
  have "to_pyint (?r mod 2 ^ 16) 16 = ?r"
    using f by (intro to_pyint_mod) simp_all
  then have g: "fst (get_value s') = real_of_int ?r / 2 ^ 13"
    by (simp add: get_value_def bus_read_def bus_write_def s')
  have close: "\<bar>real_of_int ?r - w * 2 ^ 13\<bar> \<le> 1 / 2"
    by (rule py_round_close)
  have "\<bar>fst (get_value s') - w\<bar> = \<bar>real_of_int ?r - w * 2 ^ 13\<bar> / 2 ^ 13"
    unfolding g by (simp add: abs_div_pos diff_divide_distrib)
  also have "\<dots> \<le> (1 / 2) / 2 ^ 13"
    using close by (intro divide_right_mono) simp_all
  also have "\<dots> \<le> 1 / 2 ^ 13"
    by simp
  finally show ?thesis .
qed

lemma py_round_lower: "real_of_int lo \<le> x \<Longrightarrow> lo \<le> py_round x"
proof -
  assume "real_of_int lo \<le> x"
  then have "lo \<le> \<lfloor>x\<rfloor>"
    by (simp add: le_floor_iff)
  then show ?thesis
    by (simp add: py_round_def Let_def)
qed

lemma py_round_upper: "x \<le> real_of_int hi \<Longrightarrow> py_round x \<le> hi"
proof -
  assume h: "x \<le> real_of_int hi"
  then have le: "\<lfloor>x\<rfloor> \<le> hi"
    by (simp add: floor_le_iff)
  show ?thesis
  proof (cases "\<lfloor>x\<rfloor> = hi")
    case True
    then have "x - real_of_int \<lfloor>x\<rfloor> \<le> 0"
      using h by simp
    then show ?thesis
      using True by (simp add: py_round_def Let_def)
  next
    case False
    then have "\<lfloor>x\<rfloor> + 1 \<le> hi"
      using le by simp
    then show ?thesis
      using le by (simp add: py_round_def Let_def)
  qed
qed

lemma py_round_uminus: "py_round (- x) = - py_round x"
proof (cases "x \<in> \<int>")
  case True
  then obtain n where "x = of_int n"
    by (auto elim: Ints_cases)
  then show ?thesis
    by (simp add: py_round_def Let_def flip: of_int_minus)
next
  case False
  define n where "n = \<lfloor>x\<rfloor>"
  define r where "r = x - real_of_int n"
  have ne: "x \<noteq> real_of_int n"
    using False by (metis Ints_of_int)
  moreover have "real_of_int n \<le> x" and "x < real_of_int n + 1"
    unfolding n_def by linarith+
  ultimately have r: "0 < r" "r < 1"
    by (simp_all add: r_def)
  have f: "\<lfloor>- x\<rfloor> = - n - 1"
    using ne by (simp add: floor_minus ceiling_altdef n_def)
  have r': "- x - real_of_int (- n - 1) = 1 - r"
    by (simp add: r_def)
  have "py_round (- x) = (if 1 - r < 1 / 2 then - n - 1 else if 1 / 2 < 1 - r then - n
      else if even (- n - 1) then - n - 1 else - n)"
    unfolding py_round_def Let_def f r' by simp
  moreover have "py_round x = (if r < 1 / 2 then n else if 1 / 2 < r then n + 1
      else if even n then n else n + 1)"
    unfolding py_round_def Let_def n_def [symmetric] r_def [symmetric] by simp
  ultimately show ?thesis
    using r by auto
qed

lemma encode_in_range:
  assumes "- (2 ^ (bits d - 1)) \<le> (if invert d then - (v * norm d) else v * norm d)"
    and "(if invert d then - (v * norm d) else v * norm d) \<le> 2 ^ (bits d - 1) - 1"
  shows "\<exists>raw. encode d v = Inr raw"
proof -
  let ?x = "if invert d then - (v * norm d) else v * norm d"
  have eq: "(if invert d then - py_round (v * norm d) else py_round (v * norm d)) = py_round ?x"
    by (simp add: py_round_uminus)
  have "real_of_int (- (2 ^ (bits d - 1))) \<le> ?x"
    using assms(1) by simp
  then have lo: "- (2 ^ (bits d - 1)) \<le> py_round ?x"
    by (rule py_round_lower)
  have "?x \<le> real_of_int (2 ^ (bits d - 1) - 1)"
    using assms(2) by simp
  then have "py_round ?x \<le> 2 ^ (bits d - 1) - 1"
    by (rule py_round_upper)
  with lo have "fits (bits d) (py_round ?x)"
    by (simp add: fits_def)
  then show ?thesis
    unfolding encode_def Let_def eq by simp
qed

lemma set_value_in_range:
  assumes "- 4 \<le> w" and "w \<le> 32767 / 8192"
  shows "\<exists>s'. set_value w s = Inr s'"
proof -
  have "real_of_int (- 32768) \<le> w * 2 ^ 13"
    using assms(1) by simp
  then have lo: "- 32768 \<le> py_round (w * 2 ^ 13)"
    by (rule py_round_lower)
  have "w * 2 ^ 13 \<le> real_of_int 32767"
    using assms(2) by simp
  then have "py_round (w * 2 ^ 13) \<le> 32767"
    by (rule py_round_upper)
  with lo have "fits 16 (py_round (w * 2 ^ 13))"
    by (simp add: fits_def)
  then show ?thesis
    by (simp add: set_value_def from_pyint_def)
qed

text \<open>
  C1 (codec round trip). For a descriptor with a positive normalization factor and a
  value \<open>v\<close> in the representable range, that is with \<open>v * normalization_factor\<close>
  (negated if \<open>invert\<close> is set) between \<open>- 2\<^bsup>bits - 1\<^esup>\<close> and \<open>2\<^bsup>bits - 1\<^esup> - 1\<close>,
  \<open>encode\<close> succeeds and decoding its result is within one least significant bit of
  \<open>v\<close>: \<open>\<bar>decode (encode v) - v\<bar> \<le> 1 / normalization_factor\<close>. For the integrator
  value: a write of \<open>w\<close> between \<open>- 4\<close> and \<open>32767 / 8192\<close> volts succeeds, and reading
  the register back gives a value within \<open>1 / 2\<^sup>1\<^sup>3\<close> of \<open>w\<close>.
\<close>

theorem codec_roundtrip:
  "(0 < norm d \<and>
    - (2 ^ (bits d - 1)) \<le> (if invert d then - (v * norm d) else v * norm d) \<and>
    (if invert d then - (v * norm d) else v * norm d) \<le> 2 ^ (bits d - 1) - 1
      \<longrightarrow> (\<exists>raw. encode d v = Inr raw \<and> \<bar>decode d raw - v\<bar> \<le> 1 / norm d)) \<and>
   (- 4 \<le> w \<and> w \<le> 32767 / 8192
      \<longrightarrow> (\<exists>s'. set_value w s = Inr s' \<and> \<bar>fst (get_value s') - w\<bar> \<le> 1 / 2 ^ 13))"
  using encode_in_range decode_encode_close set_value_in_range set_get_value_close
  by meson

theorem codec_roundtrip_witness:
  "((0 :: real) < norm setpoint \<and>
    - (2 ^ (bits setpoint - 1)) \<le> (3 / 10) * norm setpoint \<and>
    (3 / 10) * norm setpoint \<le> 2 ^ (bits setpoint - 1) - 1) \<and>
   (encode setpoint (3 / 10) = Inr 2458 \<and>
    \<bar>decode setpoint 2458 - 3 / 10\<bar> \<le> 1 / norm setpoint) \<and>
   ((- 4 :: real) \<le> 3 / 10 \<and> (3 / 10 :: real) \<le> 32767 / 8192) \<and>
   set_value (3 / 10) \<lparr>regs = (\<lambda>_. 0), io_log = []\<rparr>
     = Inr (bus_write 0x100 2458 \<lparr>regs = (\<lambda>_. 0), io_log = []\<rparr>) \<and>
   \<bar>fst (get_value (bus_write 0x100 2458 \<lparr>regs = (\<lambda>_. 0), io_log = []\<rparr>)) - 3 / 10\<bar>
     \<le> 1 / 2 ^ 13"
proof -
  have h: "(0 :: real) < norm setpoint \<and>
    - (2 ^ (bits setpoint - 1)) \<le> (if invert setpoint then - ((3 / 10) * norm setpoint)
        else (3 / 10) * norm setpoint) \<and>
    (if invert setpoint then - ((3 / 10) * norm setpoint) else (3 / 10) * norm setpoint)
      \<le> 2 ^ (bits setpoint - 1) - 1"
    by (simp add: setpoint_def)
  have h': "(0 :: real) < norm setpoint \<and>
    - (2 ^ (bits setpoint - 1)) \<le> (3 / 10) * norm setpoint \<and>
    (3 / 10) * norm setpoint \<le> 2 ^ (bits setpoint - 1) - 1"
    by (simp add: setpoint_def)
  have r: "(- 4 :: real) \<le> 3 / 10 \<and> (3 / 10 :: real) \<le> 32767 / 8192"
    by simp
  have e: "encode setpoint (3 / 10) = Inr 2458"
    by (simp add: encode_def setpoint_def py_round_def Let_def fits_def)
  have w: "set_value (3 / 10) \<lparr>regs = (\<lambda>_. 0), io_log = []\<rparr>
     = Inr (bus_write 0x100 2458 \<lparr>regs = (\<lambda>_. 0), io_log = []\<rparr>)"
    by (simp add: set_value_def from_pyint_def py_round_def Let_def fits_def)
  note t = codec_roundtrip [where d = setpoint and v = "3 / 10" and w = "3 / 10"
        and s = "\<lparr>regs = (\<lambda>_. 0), io_log = []\<rparr>"]
  have "\<bar>decode setpoint 2458 - 3 / 10\<bar> \<le> 1 / norm setpoint"
    using t h e by auto
  moreover have "\<bar>fst (get_value (bus_write 0x100 2458 \<lparr>regs = (\<lambda>_. 0), io_log = []\<rparr>))
      - 3 / 10\<bar> \<le> 1 / 2 ^ 13"
    using t r w by auto
  ultimately show ?thesis
    using h' r e w by blast
qed

text \<open>
  C5 (range check of encode). A value whose rounded raw integer does not fit the
  two's-complement range of the bit width makes \<open>encode\<close> fail with
  \<^verbatim>\<open>RangeError\<close>; a raw integer that \<open>encode\<close> returns is the rounded one itself and
  fits. For the integrator value: if \<open>round (w * 2\<^sup>1\<^sup>3)\<close> is outside the signed 16-bit
  range the write fails with \<^verbatim>\<open>RangeError\<close> (and nothing is stored), and after a
  write that succeeded the register read as a signed 16-bit integer is exactly
  \<open>round (w * 2\<^sup>1\<^sup>3)\<close>, not a wrapped value.
\<close>

theorem encode_range_check:
  "(\<not> fits (bits d) (if invert d then - py_round (v * norm d) else py_round (v * norm d))
      \<longrightarrow> encode d v = Inl RangeError) \<and>
   (encode d v = Inr raw
      \<longrightarrow> fits (bits d) raw
        \<and> raw = (if invert d then - py_round (v * norm d) else py_round (v * norm d))) \<and>
   (\<not> fits 16 (py_round (w * 2 ^ 13)) \<longrightarrow> set_value w s = Inl RangeError) \<and>
   (set_value w s = Inr s'
      \<longrightarrow> to_pyint (regs s' 0x100) 16 = py_round (w * 2 ^ 13))"
proof (intro conjI impI)
  assume "\<not> fits (bits d) (if invert d then - py_round (v * norm d) else py_round (v * norm d))"
  then show "encode d v = Inl RangeError"
    by (simp add: encode_def Let_def)
next
  assume "encode d v = Inr raw"
  then show "fits (bits d) raw"
    and "raw = (if invert d then - py_round (v * norm d) else py_round (v * norm d))"
    by (auto simp: encode_def Let_def split: if_splits)
next
  assume "\<not> fits 16 (py_round (w * 2 ^ 13))"
  then show "set_value w s = Inl RangeError"
    by (simp add: set_value_def from_pyint_def)
next
  let ?r = "py_round (w * 2 ^ 13)"
  assume "set_value w s = Inr s'"
  then have f: "fits 16 ?r" and s': "s' = bus_write 0x100 (?r mod 2 ^ 16) s"
    by (auto simp: set_value_def from_pyint_def split: if_splits)
  have "to_pyint (?r mod 2 ^ 16) 16 = ?r"
    using f by (intro to_pyint_mod) simp_all
  then show "to_pyint (regs s' 0x100) 16 = ?r"
    by (simp add: s' bus_write_def)
qed

theorem encode_range_check_witness:
  "(\<not> fits (bits setpoint) (if invert setpoint then - py_round (5 * norm setpoint) else py_round (5 * norm setpoint))
     \<and> encode setpoint 5 = Inl RangeError) \<and>
   (encode setpoint (3 / 10) = Inr 2458 \<and> fits (bits setpoint) 2458) \<and>
   (\<not> fits 16 (py_round (4 * 2 ^ 13))
     \<and> set_value 4 \<lparr>regs = (\<lambda>_. 0), io_log = []\<rparr> = Inl RangeError) \<and>
   (set_value (- 4) \<lparr>regs = (\<lambda>_. 0), io_log = []\<rparr>
       = Inr (bus_write 0x100 32768 \<lparr>regs = (\<lambda>_. 0), io_log = []\<rparr>)
     \<and> to_pyint (regs (bus_write 0x100 32768 \<lparr>regs = (\<lambda>_. 0), io_log = []\<rparr>) 0x100) 16
         = py_round (- 4 * 2 ^ 13))"
proof -
  have a: "\<not> fits (bits setpoint) (if invert setpoint then - py_round (5 * norm setpoint) else py_round (5 * norm setpoint))"
    by (simp add: setpoint_def py_round_def fits_def)
  have b: "encode setpoint (3 / 10) = Inr 2458"
    by (simp add: encode_def setpoint_def py_round_def Let_def fits_def)
  have c: "\<not> fits 16 (py_round (4 * 2 ^ 13))"
    by (simp add: py_round_def fits_def)
  have d: "set_value (- 4) \<lparr>regs = (\<lambda>_. 0), io_log = []\<rparr>
       = Inr (bus_write 0x100 32768 \<lparr>regs = (\<lambda>_. 0), io_log = []\<rparr>)"
    by (simp add: set_value_def from_pyint_def py_round_def Let_def fits_def)
  show ?thesis
    using a b c d
      encode_range_check [of setpoint 5 0 4 "\<lparr>regs = (\<lambda>_. 0), io_log = []\<rparr>"
        "\<lparr>regs = (\<lambda>_. 0), io_log = []\<rparr>"]
      encode_range_check [of setpoint "3 / 10" 2458 "- 4" "\<lparr>regs = (\<lambda>_. 0), io_log = []\<rparr>"
        "bus_write 0x100 32768 \<lparr>regs = (\<lambda>_. 0), io_log = []\<rparr>"]
    by blast
qed

section \<open>Arithmetic of complex samples\<close>

lemma fl_add_NaN_right: "fl_add x NaN = NaN"
  by (cases x) simp_all

lemma fl_mul_NaN_right: "fl_mul x NaN = NaN"
  by (cases x) simp_all

lemma fl_div_NaN_right: "fl_div x NaN = NaN"
  by (cases x) simp_all

lemma c_add_fin: "c_add (c_fin a) (c_fin b) = c_fin (a + b)"
  by (simp add: c_add_def c_fin_def)

lemma c_mul_fin: "c_mul (c_fin a) (c_fin b) = c_fin (a * b)"
  by (simp add: c_mul_def c_fin_def fl_sub_def)

lemma c_div_fin:
  assumes "b \<noteq> 0"
  shows "c_div (c_fin a) (c_fin b) = c_fin (a / b)"
proof -
  define ar ai br bi where "ar = Re a" and "ai = Im a" and "br = Re b" and "bi = Im b"
  have nz: "br \<noteq> 0 \<or> bi \<noteq> 0"
    using assms by (auto simp: br_def bi_def complex_eq_iff)
  then have sq: "br\<^sup>2 + bi\<^sup>2 \<noteq> 0"
    by (simp add: sum_power2_eq_zero_iff)
  have re: "Re (a / b) = (ar * br + ai * bi) / (br\<^sup>2 + bi\<^sup>2)"
    and im: "Im (a / b) = (ai * br - ar * bi) / (br\<^sup>2 + bi\<^sup>2)"
    by (simp_all add: Re_divide Im_divide ar_def ai_def br_def bi_def)
  show ?thesis
  proof (cases "\<bar>bi\<bar> \<le> \<bar>br\<bar>")
    case True
    then have br: "br \<noteq> 0"
      using nz by auto
    have deq: "br + bi * (bi / br) = (br\<^sup>2 + bi\<^sup>2) / br"
      using br by (simp add: field_simps power2_eq_square)
    then have den: "br + bi * (bi / br) \<noteq> 0"
      using br sq by simp
    have scl: "1 / (br + bi * (bi / br)) = br / (br\<^sup>2 + bi\<^sup>2)"
      unfolding deq by simp
    have "ar + ai * (bi / br) = (ar * br + ai * bi) / br"
      using br by (simp add: field_simps)
    then have r: "(ar + ai * (bi / br)) * (1 / (br + bi * (bi / br)))
        = (ar * br + ai * bi) / (br\<^sup>2 + bi\<^sup>2)"
      unfolding scl using br by simp
    have "ai - ar * (bi / br) = (ai * br - ar * bi) / br"
      using br by (simp add: field_simps)
    then have i: "(ai - ar * (bi / br)) * (1 / (br + bi * (bi / br)))
        = (ai * br - ar * bi) / (br\<^sup>2 + bi\<^sup>2)"
      unfolding scl using br by simp
    show ?thesis
      using True br den r i
      by (simp add: c_div_def c_fin_def fl_sub_def Let_def re im
          ar_def [symmetric] ai_def [symmetric] br_def [symmetric] bi_def [symmetric])
  next
    case False
    then have bi: "bi \<noteq> 0"
      by auto
    have deq: "bi + br * (br / bi) = (br\<^sup>2 + bi\<^sup>2) / bi"
      using bi by (simp add: field_simps power2_eq_square)
    then have den: "bi + br * (br / bi) \<noteq> 0"
      using bi sq by simp
    have scl: "1 / (bi + br * (br / bi)) = bi / (br\<^sup>2 + bi\<^sup>2)"
      unfolding deq by simp
    have "ar * (br / bi) + ai = (ar * br + ai * bi) / bi"
      using bi by (simp add: field_simps)
    then have r: "(ar * (br / bi) + ai) * (1 / (bi + br * (br / bi)))
        = (ar * br + ai * bi) / (br\<^sup>2 + bi\<^sup>2)"
      unfolding scl using bi by simp
    have "ai * (br / bi) - ar = (ai * br - ar * bi) / bi"
      using bi by (simp add: field_simps)
    then have i: "(ai * (br / bi) - ar) * (1 / (bi + br * (br / bi)))
        = (ai * br - ar * bi) / (br\<^sup>2 + bi\<^sup>2)"
      unfolding scl using bi by simp
    show ?thesis
      using False bi den r i
      by (simp add: c_div_def c_fin_def fl_sub_def Let_def re im
          ar_def [symmetric] ai_def [symmetric] br_def [symmetric] bi_def [symmetric])
  qed
qed

lemma c_add_nan: "c_add (NaN, NaN) y = (NaN, NaN)"
  by (simp add: c_add_def)

lemma c_mul_nan: "c_mul (NaN, NaN) y = (NaN, NaN)"
  by (simp add: c_mul_def fl_sub_def fl_add_NaN_right)

lemma c_div_nan: "c_div (NaN, NaN) y = (NaN, NaN)"
  by (simp add: c_div_def fl_sub_def Let_def fl_add_NaN_right fl_mul_NaN_right fl_div_NaN_right)

lemma c_div_zero: "c_div (c_fin a) (c_fin 0) = (signed_inf (Re a), signed_inf (Im a))"
  by (simp add: c_div_def c_fin_def)

lemma integrator_term_zero: "integrator_term i c 0 = (NaN, NaN)"
proof -
  have "c_div (c_fin (of_real i)) (c_fin (0 * \<i>)) = (signed_inf i, NaN)"
    by (simp add: c_div_zero signed_inf_def)
  moreover have "c_mul (x, NaN) (c_fin 1) = (NaN, NaN)" for x
    by (simp add: c_mul_def c_fin_def fl_sub_def fl_add_NaN_right)
  ultimately show ?thesis
    by (simp add: integrator_term_def)
qed

section \<open>Properties of the transfer function\<close>

lemma reg_get_fst: "fst (reg_get d s) = decode d (to_pyint (regs s (address d)) (bits d))"
  by (simp add: reg_get_def bus_read_def)

lemma reg_get_snd: "snd (reg_get d s) = s\<lparr>io_log := io_log s @ [BusRead (address d)]\<rparr>"
  by (simp add: reg_get_def bus_read_def)

lemma filter_loop_length:
  "length tf = length fr \<Longrightarrow> length (fst (filter_loop fs fr (tf, md))) = length fr"
  by (induction fs arbitrary: tf md) simp_all

lemma filter_loop_delay:
  "snd (filter_loop fs fr (tf, md)) = md + (\<Sum>f\<leftarrow>fs. if f = 0 then 0 else if 0 < f then 2 else 1)"
  by (induction fs arbitrary: tf md) simp_all

lemma filter_loop_append:
  "filter_loop (fs @ gs) fr st = filter_loop gs fr (filter_loop fs fr st)"
proof (induction fs arbitrary: st)
  case Nil
  show ?case by (cases st) simp
next
  case (Cons f fs)
  show ?case by (cases st) (simp add: Cons.IH)
qed

lemma lowpass_sample_nan: "lowpass_sample f w (NaN, NaN) = (NaN, NaN)"
  by (simp add: lowpass_sample_def c_div_nan)

lemma highpass_sample_nan: "highpass_sample f w (NaN, NaN) = (NaN, NaN)"
  by (simp add: highpass_sample_def c_div_nan)

lemma filter_loop_nan:
  assumes "length tf = length fr" and "k < length fr" and "tf ! k = (NaN, NaN)"
  shows "fst (filter_loop fs fr (tf, md)) ! k = (NaN, NaN)"
  using assms
proof (induction fs arbitrary: tf md)
  case Nil
  then show ?case by simp
next
  case (Cons f fs)
  have lp: "map2 (lowpass_sample f) fr tf ! k = (NaN, NaN)"
    using Cons.prems by (simp add: lowpass_sample_nan)
  have hp: "map2 (highpass_sample f) fr tf ! k = (NaN, NaN)"
    using Cons.prems by (simp add: highpass_sample_nan)
  show ?case
    using Cons.prems lp hp by (simp add: Cons.IH)
qed

lemma transfer_function_unfold:
  "transfer_function c flt s fs ed =
     (if c = 0 then Inl ZeroDivisionError
      else Inr (map2 (\<lambda>w t. c_mul t (c_fin (exp (- \<i> *
                  of_real (real_of_int (snd (filter_loop flt (map of_real fs)
                      (map (\<lambda>w. c_add (integrator_term (fst (reg_get i_reg s)) c w)
                                     (c_fin (of_real (fst (reg_get p_reg s)))))
                          (map of_real fs), delay_cycles))) * (8 / 10 ^ 9) / c + ed)
                  * w * 2 * of_real pi))))
              (map of_real fs)
              (fst (filter_loop flt (map of_real fs)
                      (map (\<lambda>w. c_add (integrator_term (fst (reg_get i_reg s)) c w)
                                     (c_fin (of_real (fst (reg_get p_reg s)))))
                          (map of_real fs), delay_cycles)))),
      s\<lparr>io_log := io_log s @ [BusRead 0x10C, BusRead 0x108]\<rparr>)"
  by (simp add: transfer_function_def Let_def split_beta reg_get_fst reg_get_snd
      i_reg_def p_reg_def o_def)

lemma integrator_term_fin:
  assumes "f \<noteq> 0"
  shows "integrator_term i c (of_real f)
    = c_fin (of_real i / (\<i> * of_real f) * exp (- \<i> * 2 * of_real pi * of_real f * (8 / 10 ^ 9) * of_real c))"
proof -
  have "of_real f * \<i> \<noteq> (0 :: complex)"
    using assms by simp
  then have "c_div (c_fin (of_real i)) (c_fin (of_real f * \<i>)) = c_fin (of_real i / (of_real f * \<i>))"
    by (rule c_div_fin)
  then show ?thesis
    by (simp add: integrator_term_def c_mul_fin mult_ac)
qed

text \<open>
  C2 (integral branch), as the code computes it. For a nonzero frequency \<open>f\<close> the
  integrator term is \<open>i / (j f) * exp (- j 2 \<pi> f T c)\<close> with \<open>T = 8 ns\<close>: the gain
  \<open>i\<close>, a unity-gain frequency in Hz, is divided by \<open>j\<close> times the frequency, not by
  \<open>j 2 \<pi>\<close> times the frequency; one clock cycle of delay is in the phase.
\<close>

theorem integral_branch:
  "f \<noteq> 0 \<longrightarrow> integrator_term i c (of_real f)
    = c_fin (of_real i / (\<i> * of_real f) * exp (- \<i> * 2 * of_real pi * of_real f * (8 / 10 ^ 9) * of_real c))"
  using integrator_term_fin by blast

theorem integral_branch_witness:
  "(1 :: real) \<noteq> 0 \<and> integrator_term 1 1 (of_real 1)
    = c_fin (of_real 1 / (\<i> * of_real 1) * exp (- \<i> * 2 * of_real pi * of_real 1 * (8 / 10 ^ 9) * of_real 1))"
  using integral_branch [of 1 1 1] by simp

lemma c_fin_inject: "c_fin a = c_fin b \<longleftrightarrow> a = b"
  by (auto simp: c_fin_def complex_eq_iff)

text \<open>
  The formula with the divisor \<open>j 2 \<pi> f\<close> fails at \<open>i = 1\<close>, \<open>f = 1\<close>, \<open>c = 1\<close>.
\<close>

theorem integral_branch_counterexample:
  "integrator_term 1 1 (of_real 1)
    \<noteq> c_fin (of_real 1 / (\<i> * 2 * of_real pi * of_real 1)
          * exp (- \<i> * 2 * of_real pi * of_real 1 * (8 / 10 ^ 9) * of_real 1))"
proof
  let ?E = "exp (- \<i> * 2 * of_real pi * of_real 1 * (8 / 10 ^ 9) * of_real 1) :: complex"
  assume "integrator_term 1 1 (of_real 1) = c_fin (of_real 1 / (\<i> * 2 * of_real pi * of_real 1) * ?E)"
  then have "c_fin (of_real 1 / (\<i> * of_real 1) * ?E) = c_fin (of_real 1 / (\<i> * 2 * of_real pi * of_real 1) * ?E)"
    using integrator_term_fin [of 1 1 1] by simp
  then have "of_real 1 / (\<i> * of_real 1) * ?E = of_real 1 / (\<i> * 2 * of_real pi * of_real 1) * ?E"
    by (simp only: c_fin_inject)
  then have "?E = 0 \<or> of_real 1 / (\<i> * of_real 1) = of_real 1 / (\<i> * 2 * of_real pi * of_real 1)"
    by (simp only: mult_cancel_right)
  then have "1 / \<i> = 1 / (\<i> * 2 * complex_of_real pi)"
    by simp
  then have "complex_of_real (2 * pi) = 1"
    by (simp add: field_simps)
  then have "2 * pi = 1"
    by (simp only: of_real_eq_1_iff)
  then show False
    using pi_ge_two by simp
qed

lemma lowpass_sample_fin:
  assumes "f \<noteq> 0"
  shows "lowpass_sample f (of_real w) t = c_div t (c_fin (1 + \<i> * of_real w / of_real f))"
proof -
  have "complex_of_real f \<noteq> 0"
    using assms by simp
  then have "c_div (c_fin (\<i> * of_real w)) (c_fin (of_real f)) = c_fin (\<i> * of_real w / of_real f)"
    by (rule c_div_fin)
  then show ?thesis
    by (simp add: lowpass_sample_def c_add_fin)
qed

lemma highpass_sample_fin:
  assumes "w \<noteq> 0"
  shows "highpass_sample f (of_real w) t = c_div t (c_fin (1 + \<i> * of_real f / of_real w))"
proof -
  have "complex_of_real w \<noteq> 0"
    using assms by simp
  then have "c_div (c_fin (\<i> * of_real f)) (c_fin (of_real w)) = c_fin (\<i> * of_real f / of_real w)"
    by (rule c_div_fin)
  then show ?thesis
    by (simp add: highpass_sample_def c_add_fin)
qed

lemma one_plus_imaginary_nonzero: "1 + \<i> * of_real a / of_real b \<noteq> 0"
proof
  assume "1 + \<i> * of_real a / of_real b = 0"
  then have "Re (1 + \<i> * complex_of_real a / of_real b) = 0"
    by simp
  then show False
    by (simp add: Re_divide)
qed

lemma map2_of_real:
  "map2 g (map of_real ws) tf = map2 (\<lambda>w t. g (of_real w) t) ws tf"
  by (simp add: zip_map1 split_def)

lemma lowpass_stage:
  assumes "0 < f"
  shows "filter_loop [f] (map of_real ws) (tf, md)
    = (map2 (\<lambda>w t. c_div t (c_fin (1 + \<i> * of_real w / of_real f))) ws tf, md + 2)"
  using assms by (simp add: map2_of_real lowpass_sample_fin)

lemma highpass_stage:
  assumes "f < 0" and "\<forall>w\<in>set ws. w \<noteq> 0"
  shows "filter_loop [f] (map of_real ws) (tf, md)
    = (map2 (\<lambda>w t. c_div t (c_fin (1 + \<i> * of_real f / of_real w))) ws tf, md + 1)"
proof -
  have "map2 (\<lambda>w t. highpass_sample f (of_real w) t) ws tf
    = map2 (\<lambda>w t. c_div t (c_fin (1 + \<i> * of_real f / of_real w))) ws tf"
    using assms(2) by (auto simp: highpass_sample_fin dest: set_zip_leftD)
  then show ?thesis
    using assms(1) by (simp add: map2_of_real)
qed

lemma filter_loop_Cons: 
  "filter_loop (f # fs) fr st = filter_loop fs fr (filter_loop [f] fr st)"
  using filter_loop_append [of "[f]" fs fr st] by simp

lemma stage_delay_nonneg:
  "0 \<le> (\<Sum>g\<leftarrow>gs. if g = 0 then 0 else if 0 < g then 2 else (1 :: int))"
  by (induction gs) simp_all

text \<open>
  C3 (filter cascade stages). A coefficient \<open>0\<close> leaves the array and the delay as
  they are. A coefficient \<open>f > 0\<close> divides every sample by \<open>1 + j w / f\<close>, \<open>w\<close> the
  frequency of the sample, and adds 2 cycles; a coefficient \<open>f < 0\<close> divides every
  sample (at nonzero frequencies) by \<open>1 + j f / w\<close> and adds 1 cycle. The division of a
  finite sample by such a divisor is the quotient of complex numbers. The stages are
  applied one after the other in the order of the coefficients; the delay after the
  loop is the initial one plus 2 per low-pass and 1 per high-pass, so it never decreases
  from stage to stage.
\<close>

theorem filter_stage_semantics:
  "filter_loop [0] fr (tf, md) = (tf, md) \<and>
   (0 < f \<longrightarrow> filter_loop [f] (map of_real ws) (tf, md)
      = (map2 (\<lambda>w t. c_div t (c_fin (1 + \<i> * of_real w / of_real f))) ws tf, md + 2)) \<and>
   (f < 0 \<and> (\<forall>w\<in>set ws. w \<noteq> 0) \<longrightarrow> filter_loop [f] (map of_real ws) (tf, md)
      = (map2 (\<lambda>w t. c_div t (c_fin (1 + \<i> * of_real f / of_real w))) ws tf, md + 1)) \<and>
   c_div (c_fin z) (c_fin (1 + \<i> * of_real a / of_real b)) = c_fin (z / (1 + \<i> * of_real a / of_real b)) \<and>
   filter_loop (g # gs) fr st = filter_loop gs fr (filter_loop [g] fr st) \<and>
   snd (filter_loop gs fr (tf, md))
      = md + (\<Sum>g\<leftarrow>gs. if g = 0 then 0 else if 0 < g then 2 else 1) \<and>
   md \<le> snd (filter_loop gs fr (tf, md)) \<and>
   snd (filter_loop gs fr (tf, md)) \<le> snd (filter_loop (gs @ hs) fr (tf, md))"
proof (intro conjI impI)
  show "filter_loop [0] fr (tf, md) = (tf, md)"
    by simp
  show "filter_loop [f] (map of_real ws) (tf, md)
      = (map2 (\<lambda>w t. c_div t (c_fin (1 + \<i> * of_real w / of_real f))) ws tf, md + 2)"
    if "0 < f"
    using that by (rule lowpass_stage)
  show "filter_loop [f] (map of_real ws) (tf, md)
      = (map2 (\<lambda>w t. c_div t (c_fin (1 + \<i> * of_real f / of_real w))) ws tf, md + 1)"
    if "f < 0 \<and> (\<forall>w\<in>set ws. w \<noteq> 0)"
    using that by (intro highpass_stage) simp_all
  show "c_div (c_fin z) (c_fin (1 + \<i> * of_real a / of_real b)) = c_fin (z / (1 + \<i> * of_real a / of_real b))"
    by (intro c_div_fin one_plus_imaginary_nonzero)
  show "filter_loop (g # gs) fr st = filter_loop gs fr (filter_loop [g] fr st)"
    by (rule filter_loop_Cons)
  show "snd (filter_loop gs fr (tf, md))
      = md + (\<Sum>g\<leftarrow>gs. if g = 0 then 0 else if 0 < g then 2 else 1)"
    by (rule filter_loop_delay)
  show "md \<le> snd (filter_loop gs fr (tf, md))"
    using stage_delay_nonneg [of gs] by (simp add: filter_loop_delay)
  show "snd (filter_loop gs fr (tf, md)) \<le> snd (filter_loop (gs @ hs) fr (tf, md))"
    using stage_delay_nonneg [of hs] by (simp add: filter_loop_delay)
qed

theorem filter_stage_semantics_witness:
  "((0 :: real) < 1000 \<and>
    filter_loop [1000] (map of_real [1000]) ([c_fin 1], 0) = ([c_fin (1 / (1 + \<i>))], 2)) \<and>
   (((- 1000 :: real) < 0 \<and> (1000 :: real) \<noteq> 0) \<and>
    filter_loop [- 1000] (map of_real [1000]) ([c_fin 1], 0) = ([c_fin (1 / (1 - \<i>))], 1))"
proof -
  note lp = filter_stage_semantics [where f = 1000 and ws = "[1000]" and tf = "[c_fin 1]"
      and md = 0 and z = 1 and a = 1000 and b = 1000 and fr = "[]" and g = 0 and gs = "[]"
      and st = "([], 0)" and hs = "[]"]
  note hp = filter_stage_semantics [where f = "- 1000" and ws = "[1000]" and tf = "[c_fin 1]"
      and md = 0 and z = 1 and a = "- 1000" and b = 1000 and fr = "[]" and g = 0 and gs = "[]"
      and st = "([], 0)" and hs = "[]"]
  have pos: "(0 :: real) < 1000" and neg: "(- 1000 :: real) < 0 \<and> (\<forall>w\<in>set [1000 :: real]. w \<noteq> 0)"
    by simp_all
  have "filter_loop [1000] (map of_real [1000]) ([c_fin 1], 0)
      = (map2 (\<lambda>w t. c_div t (c_fin (1 + \<i> * of_real w / of_real 1000))) [1000] [c_fin 1], 0 + 2)"
    using lp pos by blast
  moreover have "c_div (c_fin 1) (c_fin (1 + \<i> * of_real 1000 / of_real 1000))
      = c_fin (1 / (1 + \<i> * of_real 1000 / of_real 1000))"
    using lp by blast
  ultimately have l: "filter_loop [1000] (map of_real [1000]) ([c_fin 1], 0) = ([c_fin (1 / (1 + \<i>))], 2)"
    by simp
  have "filter_loop [- 1000] (map of_real [1000]) ([c_fin 1], 0)
      = (map2 (\<lambda>w t. c_div t (c_fin (1 + \<i> * of_real (- 1000) / of_real w))) [1000] [c_fin 1], 0 + 1)"
    using hp neg by blast
  moreover have "c_div (c_fin 1) (c_fin (1 + \<i> * of_real (- 1000) / of_real 1000))
      = c_fin (1 / (1 + \<i> * of_real (- 1000) / of_real 1000))"
    using hp by blast
  ultimately have h: "filter_loop [- 1000] (map of_real [1000]) ([c_fin 1], 0) = ([c_fin (1 / (1 - \<i>))], 1)"
    by simp
  show ?thesis
    using pos l h by simp
qed

lemma map2_map_same: "map2 g (map k xs) (map h xs) = map (\<lambda>x. g (k x) (h x)) xs"
  by (induction xs) simp_all

lemma transfer_function_no_filter:
  assumes "c \<noteq> 0"
  shows "fst (transfer_function c [] s fs ed)
    = Inr (map (\<lambda>f. c_mul (c_add (integrator_term (fst (reg_get i_reg s)) c (of_real f))
                                (c_fin (of_real (fst (reg_get p_reg s)))))
                        (c_fin (exp (- \<i> * of_real (real_of_int delay_cycles * (8 / 10 ^ 9) / c + ed)
                                      * of_real f * 2 * of_real pi)))) fs)"
  using assms by (simp add: transfer_function_unfold map2_map_same o_def)

lemma proportional_sample:
  assumes "c \<noteq> 0" and "f \<noteq> 0"
  shows "c_mul (c_add (integrator_term 0 c (of_real f)) (c_fin (of_real 1)))
               (c_fin (exp (- \<i> * of_real (real_of_int delay_cycles * (8 / 10 ^ 9) / c + 0)
                             * of_real f * 2 * of_real pi)))
    = c_fin (cis (- 2 * pi * f * (3 * (8 / 10 ^ 9) / c)))"
proof -
  have "- \<i> * of_real (real_of_int delay_cycles * (8 / 10 ^ 9) / c + 0) * of_real f * 2 * of_real pi
      = \<i> * complex_of_real (- 2 * pi * f * (3 * (8 / 10 ^ 9) / c))"
    by (simp add: delay_cycles_def)
  then have "exp (- \<i> * of_real (real_of_int delay_cycles * (8 / 10 ^ 9) / c + 0) * of_real f * 2 * of_real pi)
      = cis (- 2 * pi * f * (3 * (8 / 10 ^ 9) / c))"
    by (simp only: cis_conv_exp)
  moreover have "integrator_term 0 c (of_real f) = c_fin 0"
    using assms(2) by (simp add: integrator_term_fin)
  ultimately show ?thesis
    by (simp add: c_add_fin c_mul_fin)
qed

text \<open>
  C4 (total delay), as the code computes it. For a frequency correction \<open>c \<noteq> 0\<close> the
  result is the combined response of the branches and the filter cascade, multiplied
  sample by sample with \<open>exp (- j 2 \<pi> f delay)\<close>, where
  \<open>delay = (D0 + extra_delay_cycles) T / c + extradelay\<close>, \<open>D0 = 3\<close>, \<open>T = 8 ns\<close> and
  \<open>extra_delay_cycles\<close> is 2 per low-pass and 1 per high-pass coefficient. With
  \<open>p = 1\<close>, \<open>i = 0\<close>, no filter, \<open>extradelay = 0\<close> and nonzero frequencies, each sample
  is \<open>cis (- 2 \<pi> f D0 T / c)\<close>, the complex number of modulus 1 with that phase.
\<close>

theorem total_delay:
  "(c \<noteq> 0 \<longrightarrow>
      fst (transfer_function c flt s fs ed) =
        (let fr = map of_real fs;
             i = fst (reg_get i_reg s);
             p = fst (reg_get p_reg s);
             combined = fst (filter_loop flt fr
                 (map (\<lambda>w. c_add (integrator_term i c w) (c_fin (of_real p))) fr, 3));
             extra_delay_cycles = (\<Sum>g\<leftarrow>flt. if g = 0 then 0 else if 0 < g then 2 else 1);
             delay = real_of_int (3 + extra_delay_cycles) * (8 / 10 ^ 9) / c + ed
         in Inr (map2 (\<lambda>w t. c_mul t (c_fin (exp (- \<i> * 2 * of_real pi * w * of_real delay))))
                   fr combined))) \<and>
   (c \<noteq> 0 \<and> fst (reg_get p_reg s) = 1 \<and> fst (reg_get i_reg s) = 0 \<and> (\<forall>f\<in>set fs. f \<noteq> 0) \<longrightarrow>
      fst (transfer_function c [] s fs 0)
        = Inr (map (\<lambda>f. c_fin (cis (- 2 * pi * f * (3 * (8 / 10 ^ 9) / c)))) fs))"
proof (intro conjI impI)
  assume "c \<noteq> 0"
  then show "fst (transfer_function c flt s fs ed) =
        (let fr = map of_real fs;
             i = fst (reg_get i_reg s);
             p = fst (reg_get p_reg s);
             combined = fst (filter_loop flt fr
                 (map (\<lambda>w. c_add (integrator_term i c w) (c_fin (of_real p))) fr, 3));
             extra_delay_cycles = (\<Sum>g\<leftarrow>flt. if g = 0 then 0 else if 0 < g then 2 else 1);
             delay = real_of_int (3 + extra_delay_cycles) * (8 / 10 ^ 9) / c + ed
         in Inr (map2 (\<lambda>w t. c_mul t (c_fin (exp (- \<i> * 2 * of_real pi * w * of_real delay))))
                   fr combined))"
    by (simp add: transfer_function_unfold filter_loop_delay delay_cycles_def Let_def mult_ac)
next
  assume h: "c \<noteq> 0 \<and> fst (reg_get p_reg s) = 1 \<and> fst (reg_get i_reg s) = 0 \<and> (\<forall>f\<in>set fs. f \<noteq> 0)"
  then have "fst (transfer_function c [] s fs 0)
    = Inr (map (\<lambda>f. c_mul (c_add (integrator_term 0 c (of_real f)) (c_fin (of_real 1)))
                        (c_fin (exp (- \<i> * of_real (real_of_int delay_cycles * (8 / 10 ^ 9) / c + 0)
                                      * of_real f * 2 * of_real pi)))) fs)"
    using transfer_function_no_filter [of c s fs 0] by simp
  also have "\<dots> = Inr (map (\<lambda>f. c_fin (cis (- 2 * pi * f * (3 * (8 / 10 ^ 9) / c)))) fs)"
  proof -
    have "map (\<lambda>f. c_mul (c_add (integrator_term 0 c (of_real f)) (c_fin (of_real 1)))
                        (c_fin (exp (- \<i> * of_real (real_of_int delay_cycles * (8 / 10 ^ 9) / c + 0)
                                      * of_real f * 2 * of_real pi)))) fs
      = map (\<lambda>f. c_fin (cis (- 2 * pi * f * (3 * (8 / 10 ^ 9) / c)))) fs"
    proof (rule map_cong [OF refl])
      fix f
      assume "f \<in> set fs"
      then have "f \<noteq> 0"
        using h by blast
      then show "c_mul (c_add (integrator_term 0 c (of_real f)) (c_fin (of_real 1)))
                        (c_fin (exp (- \<i> * of_real (real_of_int delay_cycles * (8 / 10 ^ 9) / c + 0)
                                      * of_real f * 2 * of_real pi)))
          = c_fin (cis (- 2 * pi * f * (3 * (8 / 10 ^ 9) / c)))"
        using h by (intro proportional_sample) blast+
    qed
    then show ?thesis
      by (simp only:)
  qed
  finally show "fst (transfer_function c [] s fs 0)
        = Inr (map (\<lambda>f. c_fin (cis (- 2 * pi * f * (3 * (8 / 10 ^ 9) / c)))) fs)" .
qed

theorem total_delay_witness:
  "((1 :: real) \<noteq> 0 \<and>
    fst (reg_get p_reg \<lparr>regs = (\<lambda>_. 0)(0x108 := 4096), io_log = []\<rparr>) = 1 \<and>
    fst (reg_get i_reg \<lparr>regs = (\<lambda>_. 0)(0x108 := 4096), io_log = []\<rparr>) = 0 \<and>
    (1 :: real) \<noteq> 0 \<and> (10 :: real) \<noteq> 0 \<and> (100 :: real) \<noteq> 0) \<and>
   fst (transfer_function 1 [] \<lparr>regs = (\<lambda>_. 0)(0x108 := 4096), io_log = []\<rparr> [1, 10, 100] 0)
     = Inr (map (\<lambda>f. c_fin (cis (- 2 * pi * f * (3 * (8 / 10 ^ 9) / 1)))) [1, 10, 100]) \<and>
   fst (transfer_function 1 [1000, 0, 0, - 1000]
          \<lparr>regs = (\<lambda>_. 0)(0x108 := 4096), io_log = []\<rparr> [1, 10, 100] (2 / 10 ^ 7)) =
        (let fr = map of_real [1, 10, 100];
             i = fst (reg_get i_reg \<lparr>regs = (\<lambda>_. 0)(0x108 := 4096), io_log = []\<rparr>);
             p = fst (reg_get p_reg \<lparr>regs = (\<lambda>_. 0)(0x108 := 4096), io_log = []\<rparr>);
             combined = fst (filter_loop [1000, 0, 0, - 1000] fr
                 (map (\<lambda>w. c_add (integrator_term i 1 w) (c_fin (of_real p))) fr, 3));
             extra_delay_cycles =
               (\<Sum>g\<leftarrow>[1000, 0, 0, - 1000 :: real]. if g = 0 then 0 else if 0 < g then 2 else 1);
             delay = real_of_int (3 + extra_delay_cycles) * (8 / 10 ^ 9) / 1 + 2 / 10 ^ 7
         in Inr (map2 (\<lambda>w t. c_mul t (c_fin (exp (- \<i> * 2 * of_real pi * w * of_real delay))))
                   fr combined))"
proof -
  have h: "(1 :: real) \<noteq> 0 \<and>
    fst (reg_get p_reg \<lparr>regs = (\<lambda>_. 0)(0x108 := 4096), io_log = []\<rparr>) = 1 \<and>
    fst (reg_get i_reg \<lparr>regs = (\<lambda>_. 0)(0x108 := 4096), io_log = []\<rparr>) = 0 \<and>
    (\<forall>f\<in>set [1, 10, 100 :: real]. f \<noteq> 0)"
    by (simp add: reg_get_fst p_reg_def i_reg_def decode_def to_pyint_def GAINBITS_def PSR_def)
  show ?thesis
    using h
      total_delay [where c = 1 and flt = "[1000, 0, 0, - 1000]"
        and s = "\<lparr>regs = (\<lambda>_. 0)(0x108 := 4096), io_log = []\<rparr>"
        and fs = "[1, 10, 100]" and ed = "2 / 10 ^ 7"]
    by (intro conjI) (simp, simp, simp, simp, simp, simp, blast, blast)
qed

lemma half_second_delay:
  "fst (transfer_function 1 [] \<lparr>regs = (\<lambda>_. 0)(0x108 := 4096), io_log = []\<rparr> [1] (1 / 2))
     = Inr [c_fin (- cis (- 2 * pi * 1 * (3 * (8 / 10 ^ 9) / 1)))]"
proof -
  let ?s = "\<lparr>regs = (\<lambda>_. 0)(0x108 := 4096), io_log = []\<rparr>"
  have r1: "fst (reg_get p_reg ?s) = 1 \<and> fst (reg_get i_reg ?s) = 0"
    by (simp add: reg_get_fst p_reg_def i_reg_def decode_def to_pyint_def GAINBITS_def PSR_def)
  have z: "integrator_term 0 1 (of_real 1) = c_fin 0"
    using integrator_term_fin [of 1 0 1] by simp
  have "- \<i> * of_real (real_of_int delay_cycles * (8 / 10 ^ 9) / 1 + 1 / 2) * of_real 1 * 2 * of_real pi
      = \<i> * complex_of_real (- 2 * pi * 1 * (3 * (8 / 10 ^ 9) / 1) + - pi)"
    by (simp add: delay_cycles_def field_simps)
  then have "exp (- \<i> * of_real (real_of_int delay_cycles * (8 / 10 ^ 9) / 1 + 1 / 2) * of_real 1 * 2 * of_real pi)
      = cis (- 2 * pi * 1 * (3 * (8 / 10 ^ 9) / 1) + - pi)"
    by (simp only: cis_conv_exp)
  also have "\<dots> = - cis (- 2 * pi * 1 * (3 * (8 / 10 ^ 9) / 1))"
    using minus_cis' [of "- 2 * pi * 1 * (3 * (8 / 10 ^ 9) / 1)"] by simp
  finally have e: "exp (- \<i> * of_real (real_of_int delay_cycles * (8 / 10 ^ 9) / 1 + 1 / 2) * of_real 1 * 2 * of_real pi)
      = - cis (- 2 * pi * 1 * (3 * (8 / 10 ^ 9) / 1))" .
  have "fst (transfer_function 1 [] ?s [1] (1 / 2))
    = Inr [c_mul (c_add (integrator_term 0 1 (of_real 1)) (c_fin (of_real 1)))
                 (c_fin (exp (- \<i> * of_real (real_of_int delay_cycles * (8 / 10 ^ 9) / 1 + 1 / 2)
                             * of_real 1 * 2 * of_real pi)))]"
    using transfer_function_no_filter [of 1 ?s "[1]" "1 / 2"]
    by (simp add: r1)
  also have "\<dots> = Inr [c_fin (- cis (- 2 * pi * 1 * (3 * (8 / 10 ^ 9) / 1)))]"
    unfolding e z by (simp add: c_add_fin c_mul_fin)
  finally show ?thesis .
qed

lemma neg_cis_neq: "- cis a \<noteq> cis a"
proof
  assume "- cis a = cis a"
  then have "2 * cis a = 0"
    by (simp add: eq_neg_iff_add_eq_0 [symmetric])
  then show False
    by simp
qed

text \<open>
  Without the restrictions the special case fails. With \<open>p = 1\<close>, \<open>i = 0\<close> and no
  filter, the sample at frequency 0 is not a number; and at frequency 1 with
  \<open>extradelay = 1 / 2\<close> the sample is the negative of \<open>cis (- 2 \<pi> f D0 T / c)\<close>.
\<close>

theorem total_delay_counterexample:
  "fst (reg_get p_reg \<lparr>regs = (\<lambda>_. 0)(0x108 := 4096), io_log = []\<rparr>) = 1 \<and>
   fst (reg_get i_reg \<lparr>regs = (\<lambda>_. 0)(0x108 := 4096), io_log = []\<rparr>) = 0 \<and>
   fst (transfer_function 1 [] \<lparr>regs = (\<lambda>_. 0)(0x108 := 4096), io_log = []\<rparr> [0] 0)
     = Inr [(NaN, NaN)] \<and>
   fst (transfer_function 1 [] \<lparr>regs = (\<lambda>_. 0)(0x108 := 4096), io_log = []\<rparr> [0] 0)
     \<noteq> Inr [c_fin (cis (- 2 * pi * 0 * (3 * (8 / 10 ^ 9) / 1)))] \<and>
   fst (transfer_function 1 [] \<lparr>regs = (\<lambda>_. 0)(0x108 := 4096), io_log = []\<rparr> [1] (1 / 2))
     \<noteq> Inr [c_fin (cis (- 2 * pi * 1 * (3 * (8 / 10 ^ 9) / 1)))]"
proof -
  have r: "fst (reg_get p_reg \<lparr>regs = (\<lambda>_. 0)(0x108 := 4096), io_log = []\<rparr>) = 1 \<and>
    fst (reg_get i_reg \<lparr>regs = (\<lambda>_. 0)(0x108 := 4096), io_log = []\<rparr>) = 0"
    by (simp add: reg_get_fst p_reg_def i_reg_def decode_def to_pyint_def GAINBITS_def PSR_def)
  have t: "fst (transfer_function 1 [] \<lparr>regs = (\<lambda>_. 0)(0x108 := 4096), io_log = []\<rparr> [0] 0)
     = Inr [(NaN, NaN)]"
    by (simp add: transfer_function_no_filter integrator_term_zero c_add_nan c_mul_nan)
  have n: "fst (transfer_function 1 [] \<lparr>regs = (\<lambda>_. 0)(0x108 := 4096), io_log = []\<rparr> [0] 0)
     \<noteq> Inr [c_fin (cis (- 2 * pi * 0 * (3 * (8 / 10 ^ 9) / 1)))]"
    unfolding t by (simp add: c_fin_def)
  have e: "fst (transfer_function 1 [] \<lparr>regs = (\<lambda>_. 0)(0x108 := 4096), io_log = []\<rparr> [1] (1 / 2))
     \<noteq> Inr [c_fin (cis (- 2 * pi * 1 * (3 * (8 / 10 ^ 9) / 1)))]"
    unfolding half_second_delay using neg_cis_neq [of "- 2 * pi * 1 * (3 * (8 / 10 ^ 9) / 1)"]
    by (simp only: sum.inject list.inject c_fin_inject simp_thms not_False_eq_True)
  show ?thesis
    using r t n e by blast
qed

lemma transfer_function_zero_sample:
  assumes "c \<noteq> 0" and "k < length fs" and "fs ! k = 0"
  shows "\<exists>tf. fst (transfer_function c flt s fs ed) = Inr tf \<and> length tf = length fs
    \<and> tf ! k = (NaN, NaN)"
proof -
  define fr :: "complex list" where "fr = map of_real fs"
  define tf0 where "tf0 = map (\<lambda>w. c_add (integrator_term (fst (reg_get i_reg s)) c w)
                                     (c_fin (of_real (fst (reg_get p_reg s))))) fr"
  define tf1 where "tf1 = fst (filter_loop flt fr (tf0, delay_cycles))"
  have len: "length fr = length fs" "length tf0 = length fr"
    by (simp_all add: fr_def tf0_def)
  have "fr ! k = 0"
    using assms(2,3) by (simp add: fr_def)
  then have "tf0 ! k = (NaN, NaN)"
    using assms(2) len by (simp add: tf0_def integrator_term_zero c_add_nan)
  then have k1: "tf1 ! k = (NaN, NaN)"
    unfolding tf1_def using assms(2) len by (intro filter_loop_nan) simp_all
  have len1: "length tf1 = length fr"
    unfolding tf1_def using len by (intro filter_loop_length) simp
  have "map2 g fr tf1 ! k = c_mul (NaN, NaN) (h (fr ! k))"
    if "g = (\<lambda>w t. c_mul t (h w))" for g h
    using that assms(2) len len1 k1 by simp
  then have "map2 (\<lambda>w t. c_mul t (h w)) fr tf1 ! k = (NaN, NaN)" for h
    by (simp add: c_mul_nan)
  moreover have "length (map2 g fr tf1) = length fs" for g :: "complex \<Rightarrow> cfl \<Rightarrow> cfl"
    using len len1 by simp
  ultimately show ?thesis
    using assms(1) unfolding transfer_function_unfold fr_def [symmetric] tf0_def [symmetric]
      tf1_def [symmetric]
    by simp
qed

lemma singleton_nth: "length xs = Suc 0 \<Longrightarrow> xs ! 0 = x \<Longrightarrow> xs = [x]"
  by (cases xs) simp_all

text \<open>
  C6 (singularities), as the code behaves. For \<open>c \<noteq> 0\<close>, at a frequency sample equal
  to 0, with a nonzero integral gain or a high-pass coefficient among the filters, the
  call returns normally and the sample of the result is \<open>NaN + NaN j\<close>: an ordinary
  element of the returned array, neither infinite nor labelled in any way.
\<close>

theorem singularity_result:
  "c \<noteq> 0 \<and> k < length fs \<and> fs ! k = 0 \<and>
     (fst (reg_get i_reg s) \<noteq> 0 \<or> (\<exists>f\<in>set flt. f < 0)) \<longrightarrow>
   (\<exists>tf. fst (transfer_function c flt s fs ed) = Inr tf \<and> length tf = length fs
      \<and> tf ! k = (NaN, NaN))"
  using transfer_function_zero_sample by blast

theorem singularity_result_witness:
  "((1 :: real) \<noteq> 0 \<and> (0 :: nat) < length [0 :: real] \<and> [0 :: real] ! 0 = 0 \<and>
     fst (reg_get i_reg \<lparr>regs = (\<lambda>_. 0)(0x10C := 1), io_log = []\<rparr>) \<noteq> 0 \<and>
     (- 1000 :: real) < 0) \<and>
   (\<exists>tf. fst (transfer_function 1 [- 1000] \<lparr>regs = (\<lambda>_. 0)(0x10C := 1), io_log = []\<rparr> [0] 0)
          = Inr tf \<and> length tf = length [0 :: real] \<and> tf ! 0 = (NaN, NaN))"
proof -
  have i: "fst (reg_get i_reg \<lparr>regs = (\<lambda>_. 0)(0x10C := 1), io_log = []\<rparr>) \<noteq> 0"
    by (simp add: reg_get_fst i_reg_def decode_def to_pyint_def GAINBITS_def)
  have h: "(1 :: real) \<noteq> 0 \<and> (0 :: nat) < length [0 :: real] \<and> [0 :: real] ! 0 = 0 \<and>
     (fst (reg_get i_reg \<lparr>regs = (\<lambda>_. 0)(0x10C := 1), io_log = []\<rparr>) \<noteq> 0
       \<or> (\<exists>f\<in>set [- 1000 :: real]. f < 0))"
    by simp
  have "\<exists>tf. fst (transfer_function 1 [- 1000] \<lparr>regs = (\<lambda>_. 0)(0x10C := 1), io_log = []\<rparr> [0] 0)
          = Inr tf \<and> length tf = length [0 :: real] \<and> tf ! 0 = (NaN, NaN)"
    using h singularity_result [where c = 1 and k = 0 and fs = "[0]" and flt = "[- 1000]"
        and s = "\<lparr>regs = (\<lambda>_. 0)(0x10C := 1), io_log = []\<rparr>" and ed = 0]
    by blast
  then show ?thesis
    using i by simp
qed

text \<open>
  The sample at frequency 0 is the plain \<open>NaN + NaN j\<close>, for a nonzero integral gain
  (register \<open>0x10C\<close> holding 1) as well as for a high-pass coefficient.
\<close>

theorem singularity_result_counterexample:
  "fst (reg_get i_reg \<lparr>regs = (\<lambda>_. 0)(0x10C := 1), io_log = []\<rparr>) \<noteq> 0 \<and>
   fst (transfer_function 1 [] \<lparr>regs = (\<lambda>_. 0)(0x10C := 1), io_log = []\<rparr> [0] 0)
     = Inr [(NaN, NaN)] \<and>
   fst (transfer_function 1 [- 1000] \<lparr>regs = (\<lambda>_. 0), io_log = []\<rparr> [0] 0)
     = Inr [(NaN, NaN)]"
proof (intro conjI)
  show "fst (reg_get i_reg \<lparr>regs = (\<lambda>_. 0)(0x10C := 1), io_log = []\<rparr>) \<noteq> 0"
    by (simp add: reg_get_fst i_reg_def decode_def to_pyint_def GAINBITS_def)
  show "fst (transfer_function 1 [] \<lparr>regs = (\<lambda>_. 0)(0x10C := 1), io_log = []\<rparr> [0] 0)
     = Inr [(NaN, NaN)]"
    using transfer_function_zero_sample [of 1 0 "[0]" "[]"
        "\<lparr>regs = (\<lambda>_. 0)(0x10C := 1), io_log = []\<rparr>" 0]
    by (auto intro: singleton_nth)
  show "fst (transfer_function 1 [- 1000] \<lparr>regs = (\<lambda>_. 0), io_log = []\<rparr> [0] 0)
     = Inr [(NaN, NaN)]"
    using transfer_function_zero_sample [of 1 0 "[0]" "[- 1000]"
        "\<lparr>regs = (\<lambda>_. 0), io_log = []\<rparr>" 0]
    by (auto intro: singleton_nth)
qed

text \<open>
  C10 (unguarded zero frequency). For every gain snapshot and \<open>c \<noteq> 0\<close>, at a frequency
  sample equal to 0 the quotient \<open>i / (f * 1j)\<close> of the integrator term is a division by
  \<open>0 + 0j\<close> and yields \<open>(\<plusminus>\<infinity> or NaN) + NaN j\<close> (\<open>NaN\<close> in both components for
  \<open>i = 0\<close>); the integrator term and the sample of the result are \<open>NaN + NaN j\<close>, for
  every integral gain, and in particular the sample is not the proportional gain \<open>p\<close>.
\<close>

theorem zero_frequency_unguarded:
  "c \<noteq> 0 \<and> k < length fs \<and> fs ! k = 0 \<longrightarrow>
     c_div (c_fin (of_real i)) (c_fin (of_real (fs ! k) * \<i>))
       = (if 0 < i then PInf else if i < 0 then NInf else NaN, NaN) \<and>
     integrator_term i c (of_real (fs ! k)) = (NaN, NaN) \<and>
     (\<exists>tf. fst (transfer_function c flt s fs ed) = Inr tf \<and> tf ! k = (NaN, NaN)
        \<and> tf ! k \<noteq> c_fin (of_real (fst (reg_get p_reg s))))"
proof (intro impI conjI)
  assume h: "c \<noteq> 0 \<and> k < length fs \<and> fs ! k = 0"
  show "c_div (c_fin (of_real i)) (c_fin (of_real (fs ! k) * \<i>))
       = (if 0 < i then PInf else if i < 0 then NInf else NaN, NaN)"
    using h by (simp add: c_div_zero signed_inf_def)
  show "integrator_term i c (of_real (fs ! k)) = (NaN, NaN)"
    using h by (simp add: integrator_term_zero)
  obtain tf where "fst (transfer_function c flt s fs ed) = Inr tf" and "tf ! k = (NaN, NaN)"
    using h transfer_function_zero_sample [of c k fs flt s ed] by blast
  then show "\<exists>tf. fst (transfer_function c flt s fs ed) = Inr tf \<and> tf ! k = (NaN, NaN)
        \<and> tf ! k \<noteq> c_fin (of_real (fst (reg_get p_reg s)))"
    by (simp add: c_fin_def)
qed

theorem zero_frequency_unguarded_witness:
  "((1 :: real) \<noteq> 0 \<and> (0 :: nat) < length [0 :: real] \<and> [0 :: real] ! 0 = 0) \<and>
   c_div (c_fin (of_real 0)) (c_fin (of_real ([0] ! 0) * \<i>)) = (NaN, NaN) \<and>
   integrator_term 0 1 (of_real ([0] ! 0)) = (NaN, NaN) \<and>
   (\<exists>tf. fst (transfer_function 1 [] \<lparr>regs = (\<lambda>_. 0)(0x108 := 4096), io_log = []\<rparr> [0] 0)
          = Inr tf \<and> tf ! 0 = (NaN, NaN)
      \<and> tf ! 0 \<noteq> c_fin (of_real (fst (reg_get p_reg
            \<lparr>regs = (\<lambda>_. 0)(0x108 := 4096), io_log = []\<rparr>))))"
proof -
  have h: "(1 :: real) \<noteq> 0 \<and> (0 :: nat) < length [0 :: real] \<and> [0 :: real] ! 0 = 0"
    by simp
  have "c_div (c_fin (of_real 0)) (c_fin (of_real ([0] ! 0) * \<i>))
       = (if 0 < (0 :: real) then PInf else if (0 :: real) < 0 then NInf else NaN, NaN) \<and>
     integrator_term 0 1 (of_real ([0] ! 0)) = (NaN, NaN) \<and>
     (\<exists>tf. fst (transfer_function 1 [] \<lparr>regs = (\<lambda>_. 0)(0x108 := 4096), io_log = []\<rparr> [0] 0)
          = Inr tf \<and> tf ! 0 = (NaN, NaN)
      \<and> tf ! 0 \<noteq> c_fin (of_real (fst (reg_get p_reg
            \<lparr>regs = (\<lambda>_. 0)(0x108 := 4096), io_log = []\<rparr>))))"
    using h zero_frequency_unguarded [where c = 1 and k = 0 and fs = "[0]" and flt = "[]" and i = 0
        and s = "\<lparr>regs = (\<lambda>_. 0)(0x108 := 4096), io_log = []\<rparr>" and ed = 0]
    by blast
  then show ?thesis
    using h by simp
qed

lemma transfer_function_regs_cong:
  assumes "regs s (address i_reg) = regs s' (address i_reg)"
    and "regs s (address p_reg) = regs s' (address p_reg)"
  shows "fst (transfer_function c flt s fs ed) = fst (transfer_function c flt s' fs ed)"
  using assms by (simp add: transfer_function_unfold reg_get_fst)

text \<open>
  C7 (hardware traffic of the synthesizer), as the code behaves. A call of
  \<^verbatim>\<open>transfer_function\<close> reads the integral gain (register \<open>0x10C\<close>) and then the
  proportional gain (register \<open>0x108\<close>) from the bus, each once, and writes nothing; its
  result is determined by the contents of these two registers at the time of the call
  (and by the arguments, the frequency correction and the filter coefficients).
\<close>

theorem transfer_function_bus_traffic:
  "snd (transfer_function c flt s fs ed)
     = s\<lparr>io_log := io_log s @ [BusRead 0x10C, BusRead 0x108]\<rparr> \<and>
   fst (transfer_function c flt s fs ed)
     = fst (transfer_function c flt
         \<lparr>regs = (\<lambda>a. if a = 0x10C \<or> a = 0x108 then regs s a else 0), io_log = []\<rparr> fs ed)"
proof
  show "snd (transfer_function c flt s fs ed)
     = s\<lparr>io_log := io_log s @ [BusRead 0x10C, BusRead 0x108]\<rparr>"
    by (simp add: transfer_function_unfold)
  show "fst (transfer_function c flt s fs ed)
     = fst (transfer_function c flt
         \<lparr>regs = (\<lambda>a. if a = 0x10C \<or> a = 0x108 then regs s a else 0), io_log = []\<rparr> fs ed)"
    by (rule transfer_function_regs_cong) (simp_all add: i_reg_def p_reg_def)
qed

text \<open>
  The call is not free of bus reads: starting from an empty log, two reads are logged at
  return, and the same arguments give different results for different register contents.
\<close>

theorem transfer_function_bus_traffic_counterexample:
  "io_log (snd (transfer_function 1 [] \<lparr>regs = (\<lambda>_. 0), io_log = []\<rparr> [1] 0))
     = [BusRead 0x10C, BusRead 0x108] \<and>
   fst (transfer_function 1 [] \<lparr>regs = (\<lambda>_. 0), io_log = []\<rparr> [1] 0) = Inr [c_fin 0] \<and>
   fst (transfer_function 1 [] \<lparr>regs = (\<lambda>_. 0)(0x108 := 4096), io_log = []\<rparr> [1] 0)
     = Inr [c_fin (cis (- 2 * pi * 1 * (3 * (8 / 10 ^ 9) / 1)))]"
proof (intro conjI)
  show "io_log (snd (transfer_function 1 [] \<lparr>regs = (\<lambda>_. 0), io_log = []\<rparr> [1] 0))
     = [BusRead 0x10C, BusRead 0x108]"
    by (simp add: transfer_function_unfold)
  have z: "integrator_term 0 1 (of_real 1) = c_fin 0"
    using integrator_term_fin [of 1 0 1] by simp
  have r0: "fst (reg_get p_reg \<lparr>regs = (\<lambda>_. 0), io_log = []\<rparr>) = 0 \<and>
    fst (reg_get i_reg \<lparr>regs = (\<lambda>_. 0), io_log = []\<rparr>) = 0"
    by (simp add: reg_get_fst p_reg_def i_reg_def decode_def to_pyint_def GAINBITS_def PSR_def)
  show "fst (transfer_function 1 [] \<lparr>regs = (\<lambda>_. 0), io_log = []\<rparr> [1] 0) = Inr [c_fin 0]"
    using z by (simp add: transfer_function_no_filter r0 c_add_fin c_mul_fin del: of_real_1)
  have r1: "fst (reg_get p_reg \<lparr>regs = (\<lambda>_. 0)(0x108 := 4096), io_log = []\<rparr>) = 1 \<and>
    fst (reg_get i_reg \<lparr>regs = (\<lambda>_. 0)(0x108 := 4096), io_log = []\<rparr>) = 0"
    by (simp add: reg_get_fst p_reg_def i_reg_def decode_def to_pyint_def GAINBITS_def PSR_def)
  have "fst (transfer_function 1 [] \<lparr>regs = (\<lambda>_. 0)(0x108 := 4096), io_log = []\<rparr> [1] 0)
    = Inr [c_mul (c_add (integrator_term 0 1 (of_real 1)) (c_fin (of_real 1)))
                 (c_fin (exp (- \<i> * of_real (real_of_int delay_cycles * (8 / 10 ^ 9) / 1 + 0)
                             * of_real 1 * 2 * of_real pi)))]"
    using transfer_function_no_filter [of 1 "\<lparr>regs = (\<lambda>_. 0)(0x108 := 4096), io_log = []\<rparr>" "[1]" 0]
    by (simp add: r1)
  then show "fst (transfer_function 1 [] \<lparr>regs = (\<lambda>_. 0)(0x108 := 4096), io_log = []\<rparr> [1] 0)
     = Inr [c_fin (cis (- 2 * pi * 1 * (3 * (8 / 10 ^ 9) / 1)))]"
    using proportional_sample [of 1 1] by (simp only:)
qed

text \<open>
  The derivative gain (register \<open>0x110\<close>) is neither read nor used by
  \<^verbatim>\<open>transfer_function\<close>: the derivative term of the body is commented out. Changing
  that register does not change the result, the register is not among the reads of the
  call, and the only exception of the body is the \<^verbatim>\<open>ZeroDivisionError\<close> of the delay.
\<close>

lemma derivative_gain_unused:
  "fst (transfer_function c flt (s\<lparr>regs := (regs s)(address d_reg := x)\<rparr>) fs ed)
     = fst (transfer_function c flt s fs ed) \<and>
   BusRead (address d_reg) \<notin> set (drop (length (io_log s))
       (io_log (snd (transfer_function c flt s fs ed)))) \<and>
   ((\<exists>tf. fst (transfer_function c flt s fs ed) = Inr tf) \<or>
    (c = 0 \<and> fst (transfer_function c flt s fs ed) = Inl ZeroDivisionError))"
proof (intro conjI)
  show "fst (transfer_function c flt (s\<lparr>regs := (regs s)(address d_reg := x)\<rparr>) fs ed)
     = fst (transfer_function c flt s fs ed)"
    by (rule transfer_function_regs_cong) (simp_all add: i_reg_def p_reg_def d_reg_def)
  show "BusRead (address d_reg) \<notin> set (drop (length (io_log s))
       (io_log (snd (transfer_function c flt s fs ed))))"
    by (simp add: transfer_function_unfold d_reg_def)
  show "(\<exists>tf. fst (transfer_function c flt s fs ed) = Inr tf) \<or>
    (c = 0 \<and> fst (transfer_function c flt s fs ed) = Inl ZeroDivisionError)"
    by (simp add: transfer_function_unfold)
qed

text \<open>
  C8 (derivative branch). The docstring of \<^verbatim>\<open>transfer_function\<close> says that the
  settings for \<open>p\<close>, \<open>i\<close> and \<open>d\<close> are taken into account, and a derivative gain that
  is requested but not modelled has to be raised or reported, never silently ignored.
  The code does ignore it: with a nonzero derivative gain (register \<open>0x110\<close> holding
  1), \<open>p = 1\<close>, \<open>i = 0\<close>, no filter and frequency 1, the call raises nothing and
  returns the purely proportional response \<open>cis (- 2 \<pi> f D0 T / c)\<close>, the same array as
  for the derivative gain 0.
\<close>

theorem derivative_ignored_at_input:
  "regs \<lparr>regs = (\<lambda>_. 0)(0x108 := 4096, 0x110 := 1), io_log = []\<rparr> (address d_reg) \<noteq> 0 \<and>
   fst (reg_get d_reg \<lparr>regs = (\<lambda>_. 0)(0x108 := 4096, 0x110 := 1), io_log = []\<rparr>) \<noteq> 0 \<and>
   fst (transfer_function 1 [] \<lparr>regs = (\<lambda>_. 0)(0x108 := 4096, 0x110 := 1), io_log = []\<rparr> [1] 0)
     = Inr [c_fin (cis (- 2 * pi * 1 * (3 * (8 / 10 ^ 9) / 1)))] \<and>
   fst (transfer_function 1 [] \<lparr>regs = (\<lambda>_. 0)(0x108 := 4096, 0x110 := 1), io_log = []\<rparr> [1] 0)
     = fst (transfer_function 1 [] \<lparr>regs = (\<lambda>_. 0)(0x108 := 4096, 0x110 := 0), io_log = []\<rparr> [1] 0)"
proof (intro conjI)
  let ?s = "\<lparr>regs = (\<lambda>_. 0)(0x108 := 4096, 0x110 := 1), io_log = []\<rparr>"
  show "regs ?s (address d_reg) \<noteq> 0"
    by (simp add: d_reg_def)
  show "fst (reg_get d_reg ?s) \<noteq> 0"
    by (simp add: reg_get_fst d_reg_def decode_def to_pyint_def GAINBITS_def)
  have r1: "fst (reg_get p_reg ?s) = 1 \<and> fst (reg_get i_reg ?s) = 0"
    by (simp add: reg_get_fst p_reg_def i_reg_def decode_def to_pyint_def GAINBITS_def PSR_def)
  have "fst (transfer_function 1 [] ?s [1] 0)
    = Inr [c_mul (c_add (integrator_term 0 1 (of_real 1)) (c_fin (of_real 1)))
                 (c_fin (exp (- \<i> * of_real (real_of_int delay_cycles * (8 / 10 ^ 9) / 1 + 0)
                             * of_real 1 * 2 * of_real pi)))]"
    using transfer_function_no_filter [of 1 ?s "[1]" 0]
    by (simp add: r1)
  then show "fst (transfer_function 1 [] ?s [1] 0)
     = Inr [c_fin (cis (- 2 * pi * 1 * (3 * (8 / 10 ^ 9) / 1)))]"
    using proportional_sample [of 1 1] by (simp only:)
  show "fst (transfer_function 1 [] ?s [1] 0)
     = fst (transfer_function 1 [] \<lparr>regs = (\<lambda>_. 0)(0x108 := 4096, 0x110 := 0), io_log = []\<rparr> [1] 0)"
    by (rule transfer_function_regs_cong) (simp_all add: i_reg_def p_reg_def)
qed

section \<open>Registers shared by two parameters\<close>

lemma set_then_get:
  assumes "address a = address b" and "bits a = bits b" and "0 < bits a"
    and "reg_set a v s = Inr s'"
  shows "\<exists>raw. encode a v = Inr raw \<and> fst (reg_get b s') = decode b raw"
proof -
  obtain raw where e: "encode a v = Inr raw"
    and s': "s' = bus_write (address a) (raw mod 2 ^ bits a) s"
    using assms(4) by (auto simp: reg_set_def split: sum.splits)
  have "fits (bits a) raw"
    using e by (auto simp: encode_def Let_def split: if_splits)
  then have "to_pyint (raw mod 2 ^ bits a) (bits a) = raw"
    using assms(3) by (intro to_pyint_mod)
  then have "fst (reg_get b s') = decode b raw"
    using assms(1,2) by (simp add: reg_get_fst s' bus_write_def)
  then show ?thesis
    using e by blast
qed

text \<open>
  C9 (register aliasing). \<^verbatim>\<open>normalization_i\<close> is declared at the address \<open>0x10C\<close> of
  \<^verbatim>\<open>i\<close> and \<^verbatim>\<open>normalization_inputoffset\<close> at the address \<open>0x110\<close> of \<^verbatim>\<open>d\<close>.
  After a set through one member of such a pair that succeeded, a get of the other
  member returns the raw integer just written, decoded with the other member's own
  normalization and inversion: the two parameters are one register.
\<close>

theorem register_aliasing:
  "address i_reg = 0x10C \<and> address normalization_i = 0x10C \<and>
   address d_reg = 0x110 \<and> address normalization_inputoffset = 0x110 \<and>
   ((a, b) \<in> {(i_reg, normalization_i), (normalization_i, i_reg),
               (d_reg, normalization_inputoffset), (normalization_inputoffset, d_reg)}
      \<and> reg_set a v s = Inr s'
    \<longrightarrow> (\<exists>raw. encode a v = Inr raw \<and> fst (reg_get b s') = decode b raw))"
proof (intro conjI impI)
  assume h: "(a, b) \<in> {(i_reg, normalization_i), (normalization_i, i_reg),
               (d_reg, normalization_inputoffset), (normalization_inputoffset, d_reg)}
      \<and> reg_set a v s = Inr s'"
  then have "address a = address b \<and> bits a = bits b \<and> 0 < bits a"
    by (auto simp: i_reg_def normalization_i_def d_reg_def normalization_inputoffset_def
        GAINBITS_def DSR_def)
  then show "\<exists>raw. encode a v = Inr raw \<and> fst (reg_get b s') = decode b raw"
    using h set_then_get by blast
qed (simp_all add: i_reg_def normalization_i_def d_reg_def normalization_inputoffset_def)

theorem register_aliasing_witness:
  "((normalization_inputoffset, d_reg)
      \<in> {(i_reg, normalization_i), (normalization_i, i_reg),
          (d_reg, normalization_inputoffset), (normalization_inputoffset, d_reg)} \<and>
    reg_set normalization_inputoffset (1 / 2) \<lparr>regs = (\<lambda>_. 0), io_log = []\<rparr>
      = Inr (bus_write 0x110 4194304 \<lparr>regs = (\<lambda>_. 0), io_log = []\<rparr>)) \<and>
   (\<exists>raw. encode normalization_inputoffset (1 / 2) = Inr raw \<and>
      fst (reg_get d_reg (bus_write 0x110 4194304 \<lparr>regs = (\<lambda>_. 0), io_log = []\<rparr>))
        = decode d_reg raw)"
proof -
  have h: "(normalization_inputoffset, d_reg)
      \<in> {(i_reg, normalization_i), (normalization_i, i_reg),
          (d_reg, normalization_inputoffset), (normalization_inputoffset, d_reg)} \<and>
    reg_set normalization_inputoffset (1 / 2) \<lparr>regs = (\<lambda>_. 0), io_log = []\<rparr>
      = Inr (bus_write 0x110 4194304 \<lparr>regs = (\<lambda>_. 0), io_log = []\<rparr>)"
    by (simp add: reg_set_def encode_def normalization_inputoffset_def DSR_def py_round_def
        Let_def fits_def)
  show ?thesis
    using h register_aliasing [where a = normalization_inputoffset and b = d_reg
        and v = "1 / 2" and s = "\<lparr>regs = (\<lambda>_. 0), io_log = []\<rparr>"
        and s' = "bus_write 0x110 4194304 \<lparr>regs = (\<lambda>_. 0), io_log = []\<rparr>"]
    by blast
qed

end
